theory Spec2Isabelle
  imports Complex_Main "HOL-Library.Sublist"
begin

section \<open>Data model\<close>

text \<open>
  The record collection of the user list holds JavaScript objects
  \<^verbatim>\<open>{ id, name, email, company: { name } }\<close>. The form's draft is the same object
  without the \<^verbatim>\<open>id\<close>, so a user record is modelled as an extension of the draft.

  An \<^verbatim>\<open>id\<close> is a JavaScript number, a double. The ids the program meets are
  integers, and the only other number the code can produce for an id is
  \<^verbatim>\<open>-Infinity\<close> (\<^verbatim>\<open>Math.max()\<close> of no arguments), so a number is negative
  infinity or a finite double with an integer value, written as that integer.
\<close>

datatype jsnum = NegInf | Fin int

text \<open>
  A double has a significand of 53 bits: integers of magnitude below \<open>2^53\<close> are one
  apart, those from \<open>2^53\<close> up to \<open>2^54\<close> two apart, and the distance doubles with every
  further bit. \<open>spacing n\<close> is the distance between the doubles at magnitude \<open>n\<close>.
\<close>

fun spacing :: "nat \<Rightarrow> int" where
  "spacing n = (if n < 2 ^ 53 then 1 else 2 * spacing (n div 2))"

declare spacing.simps [simp del]

text \<open>
  The double nearest to an integer, as every arithmetic operation on doubles rounds its
  exact result: to the nearer of the two neighbouring doubles, and in a tie to the one
  with the even significand.
\<close>

definition round_double :: "int \<Rightarrow> int" where
  "round_double x =
     (let u = spacing (nat \<bar>x\<bar>); q = x div u; r = x mod u
      in if 2 * r < u then q * u
         else if u < 2 * r then (q + 1) * u
         else if even q then q * u else (q + 1) * u)"

text \<open>
  \<^verbatim>\<open>a + 1\<close> on numbers, the one sum of the program: negative infinity stays negative
  infinity, and the exact sum of a finite number and 1 is rounded to a double.
\<close>

fun js_plus_one :: "jsnum \<Rightarrow> jsnum" where
  "js_plus_one NegInf = NegInf"
| "js_plus_one (Fin a) = Fin (round_double (a + 1))"

text \<open>\<^verbatim>\<open>a > b\<close> on numbers.\<close>

fun js_gt :: "jsnum \<Rightarrow> jsnum \<Rightarrow> bool" where
  "js_gt (Fin a) (Fin b) = (a > b)"
| "js_gt (Fin a) NegInf = True"
| "js_gt NegInf _ = False"

text \<open>
  \<^verbatim>\<open>Math.max(...xs)\<close>: the running maximum starts at negative infinity and is replaced
  by every argument greater than it.
\<close>

definition Math_max :: "jsnum list \<Rightarrow> jsnum" where
  "Math_max xs = foldl (\<lambda>highest x. if js_gt x highest then x else highest) NegInf xs"

record company =
  company_name :: string

record formData =
  name :: string
  email :: string
  company :: company

record user = formData +
  user_id :: jsnum

datatype toast = Toast_success string | Toast_error string

text \<open>The outcome of an awaited request: the promise is rejected with an error message or resolved with data.\<close>

datatype 'a response = Rejected string | Resolved 'a

section \<open>The user list (record store)\<close>

text \<open>
  The state hooks of \<^verbatim>\<open>UserList\<close>, and the notifications emitted so far. Each handler is
  modelled as run against the state it was created in: the handler reads \<^verbatim>\<open>users\<close> and
  \<^verbatim>\<open>selectedUser\<close> and the setters replace a component of the state.
\<close>

record UserList_state =
  users :: "user list"
  error :: "string option"
  showForm :: bool
  selectedUser :: "user option"
  currentPage :: int
  toasts :: "toast list"

definition usersPerPage :: nat where
  "usersPerPage = 13"

definition initial_state :: UserList_state where
  "initial_state = \<lparr> users = [], error = None, showForm = False,
     selectedUser = None, currentPage = 1, toasts = [] \<rparr>"

definition fetchUsers :: "user list response \<Rightarrow> UserList_state \<Rightarrow> UserList_state" where
  "fetchUsers r st =
     (case r of
        Resolved data \<Rightarrow> st\<lparr> users := data \<rparr>
      | Rejected message \<Rightarrow>
          st\<lparr> error := Some message,
              toasts := toasts st @ [Toast_error ''Failed to fetch users.''] \<rparr>)"

definition handleAddOrEditUser :: "user \<Rightarrow> UserList_state \<Rightarrow> UserList_state" where
  "handleAddOrEditUser usr st =
     (case selectedUser st of
        Some _ \<Rightarrow>
          st\<lparr> users := map (\<lambda>u. if user_id u = user_id usr then usr else u) (users st),
              toasts := toasts st @ [Toast_success ''User updated successfully!''],
              showForm := False \<rparr>
      | None \<Rightarrow>
          (let newUser = usr\<lparr> user_id := js_plus_one (Math_max (map user_id (users st))) \<rparr>
           in st\<lparr> users := users st @ [newUser],
                  toasts := toasts st @ [Toast_success ''User added successfully!''],
                  showForm := False \<rparr>))"

definition handleDeleteUser :: "unit response \<Rightarrow> jsnum \<Rightarrow> UserList_state \<Rightarrow> UserList_state" where
  "handleDeleteUser r i st =
     (case r of
        Resolved _ \<Rightarrow>
          st\<lparr> users := filter (\<lambda>u. user_id u \<noteq> i) (users st),
              toasts := toasts st @ [Toast_success ''User deleted successfully!''] \<rparr>
      | Rejected message \<Rightarrow>
          st\<lparr> error := Some message,
              toasts := toasts st @ [Toast_error ''Failed to delete user.''] \<rparr>)"

definition handleEditUser :: "user \<Rightarrow> UserList_state \<Rightarrow> UserList_state" where
  "handleEditUser userData st = st\<lparr> selectedUser := Some userData, showForm := True \<rparr>"

text \<open>The click handler of the "Add User" button.\<close>

definition add_user_button :: "UserList_state \<Rightarrow> UserList_state" where
  "add_user_button st = st\<lparr> selectedUser := None, showForm := True \<rparr>"

definition paginate :: "int \<Rightarrow> UserList_state \<Rightarrow> UserList_state" where
  "paginate pageNumber st = st\<lparr> currentPage := pageNumber \<rparr>"

text \<open>The Cancel button of the form: the form is closed and its draft goes with it.\<close>

definition handleCancel :: "UserList_state \<Rightarrow> UserList_state" where
  "handleCancel st = st\<lparr> showForm := False, selectedUser := None \<rparr>"

subsection \<open>Pagination\<close>

text \<open>
  \<^verbatim>\<open>xs.slice(start, end)\<close> for integer arguments: a negative index counts from the end,
  both indices are clamped to the array, and the elements from the first index up to,
  not including, the second are returned.
\<close>

definition js_slice :: "'a list \<Rightarrow> int \<Rightarrow> int \<Rightarrow> 'a list" where
  "js_slice xs start fin =
     (let len = int (length xs);
          k = (if start < 0 then max (len + start) 0 else min start len);
          final = (if fin < 0 then max (len + fin) 0 else min fin len)
      in take (nat (final - k)) (drop (nat k) xs))"

definition indexOfLastUser :: "UserList_state \<Rightarrow> int" where
  "indexOfLastUser st = currentPage st * int usersPerPage"

definition indexOfFirstUser :: "UserList_state \<Rightarrow> int" where
  "indexOfFirstUser st = indexOfLastUser st - int usersPerPage"

definition currentUsers :: "UserList_state \<Rightarrow> user list" where
  "currentUsers st = js_slice (users st) (indexOfFirstUser st) (indexOfLastUser st)"

text \<open>\<^verbatim>\<open>Math.ceil(users.length / usersPerPage)\<close>, the page at which Next is disabled.\<close>

definition lastPage :: "UserList_state \<Rightarrow> int" where
  "lastPage st = \<lceil>real (length (users st)) / real usersPerPage\<rceil>"


definition next_disabled :: "UserList_state \<Rightarrow> bool" where
  "next_disabled st = (currentPage st = lastPage st)"


definition click_next :: "UserList_state \<Rightarrow> UserList_state" where
  "click_next st = (if next_disabled st then st else paginate (currentPage st + 1) st)"

section \<open>The form\<close>

text \<open>
  The form holds the draft and its own error message. A submit either stops at the
  validation or issues one request; the handlers of the request's promise run when it
  settles. The requests of the program are kept as values, so that "no network call" is
  a statement about a result.
\<close>

datatype request = Get_users | Post_users formData | Put_user jsnum formData | Delete_user jsnum

record UserForm_state =
  formData :: formData
  formError :: "string option"

definition empty_formData :: formData where
  "empty_formData = \<lparr> name = [], email = [], company = \<lparr> company_name = [] \<rparr> \<rparr>"

definition initial_form :: "user option \<Rightarrow> UserForm_state" where
  "initial_form selected =
     \<lparr> formData =
         (case selected of
            Some s \<Rightarrow> \<lparr> name = name s, email = email s,
                        company = \<lparr> company_name = company_name (company s) \<rparr> \<rparr>
          | None \<Rightarrow> empty_formData),
       formError = None \<rparr>"

datatype field = Field_name | Field_email

definition handleChange :: "field \<Rightarrow> string \<Rightarrow> UserForm_state \<Rightarrow> UserForm_state" where
  "handleChange fld v f =
     (case fld of
        Field_name \<Rightarrow> f\<lparr> formData := (formData f)\<lparr> name := v \<rparr> \<rparr>
      | Field_email \<Rightarrow> f\<lparr> formData := (formData f)\<lparr> email := v \<rparr> \<rparr>)"

definition change_department :: "string \<Rightarrow> UserForm_state \<Rightarrow> UserForm_state" where
  "change_department v f = f\<lparr> formData := (formData f)\<lparr> company := \<lparr> company_name = v \<rparr> \<rparr> \<rparr>"

text \<open>
  The synchronous part of \<^verbatim>\<open>handleSubmit\<close>: the new form state and the request issued,
  if any. \<^verbatim>\<open>!s\<close> on a string holds exactly for the empty string.
\<close>

definition handleSubmit :: "user option \<Rightarrow> UserForm_state \<Rightarrow> UserForm_state \<times> request option" where
  "handleSubmit selected f =
     (if name (formData f) = [] \<or> email (formData f) = []
         \<or> company_name (company (formData f)) = []
      then (f\<lparr> formError := Some ''All fields are required.'' \<rparr>, None)
      else (f, Some (case selected of
                       Some s \<Rightarrow> Put_user (user_id s) (formData f)
                     | None \<Rightarrow> Post_users (formData f))))"

text \<open>The \<^verbatim>\<open>then\<close> and \<^verbatim>\<open>catch\<close> handlers of the request.\<close>

definition submit_settled ::
  "user response \<Rightarrow> UserList_state \<times> UserForm_state \<Rightarrow> UserList_state \<times> UserForm_state" where
  "submit_settled r app =
     (case app of (st, f) \<Rightarrow>
        (case r of
           Resolved data \<Rightarrow>
             ((handleAddOrEditUser data st)\<lparr> selectedUser := None, showForm := False \<rparr>,
              f\<lparr> formData := empty_formData \<rparr>)
         | Rejected message \<Rightarrow> (st, f\<lparr> formError := Some message \<rparr>)))"

text \<open>
  A whole submit against a remote collaborator \<open>net\<close> that answers each request: the
  resulting list and form, and the requests that were issued.
\<close>

definition submit ::
  "(request \<Rightarrow> user response) \<Rightarrow> UserList_state \<times> UserForm_state
     \<Rightarrow> (UserList_state \<times> UserForm_state) \<times> request list" where
  "submit net app =
     (case app of (st, f) \<Rightarrow>
        (case handleSubmit (selectedUser st) f of
           (f', None) \<Rightarrow> ((st, f'), [])
         | (f', Some req) \<Rightarrow> (submit_settled (net req) (st, f'), [req])))"

section \<open>The table row\<close>

text \<open>
  \<^verbatim>\<open>s.split(c)\<close> for a separator of one character: the pieces between the occurrences
  of the separator, one more piece than there are occurrences.
\<close>

fun split :: "char \<Rightarrow> string \<Rightarrow> string list" where
  "split c [] = [[]]"
| "split c (x # xs) =
     (if x = c then [] # split c xs
      else (case split c xs of
              [] \<Rightarrow> [[x]]
            | p # ps \<Rightarrow> (x # p) # ps))"

text \<open>
  \<^verbatim>\<open>parts[i] || ""\<close>: an index past the end reads \<^verbatim>\<open>undefined\<close>, and both
  \<^verbatim>\<open>undefined\<close> and the empty string give the default.
\<close>

definition part_or_empty :: "string list \<Rightarrow> nat \<Rightarrow> string" where
  "part_or_empty parts i = (if i < length parts then parts ! i else [])"

definition nameParts :: "user \<Rightarrow> string list" where
  "nameParts userData = split (CHR '' '') (name userData)"

definition firstName :: "user \<Rightarrow> string" where
  "firstName userData = part_or_empty (nameParts userData) 0"

definition lastName :: "user \<Rightarrow> string" where
  "lastName userData = part_or_empty (nameParts userData) 1"

definition department :: "user \<Rightarrow> string" where
  "department userData = company_name (company userData)"

text \<open>
  The cells of the row that \<^verbatim>\<open>User\<close> renders; without a record it renders nothing.
  The name, the email and the company name of a record are strings, on which
  \<^verbatim>\<open>s || ""\<close> is \<open>s\<close>.
\<close>

record row =
  cell_id :: jsnum
  cell_firstName :: string
  cell_lastName :: string
  cell_email :: string
  cell_department :: string

definition User :: "user option \<Rightarrow> row option" where
  "User userData =
     (case userData of
        None \<Rightarrow> None
      | Some u \<Rightarrow>
          Some \<lparr> cell_id = user_id u, cell_firstName = firstName u, cell_lastName = lastName u,
                 cell_email = email u, cell_department = department u \<rparr>)"

section \<open>Reference notions for the name split\<close>

text \<open>
  The two notions the description of the row uses, written independently of
  \<^verbatim>\<open>split\<close>: the text before the first occurrence of a character (the whole text when
  it does not occur) and the text after the first occurrence (empty when it does not occur).
\<close>

fun text_before_first :: "char \<Rightarrow> string \<Rightarrow> string" where
  "text_before_first c [] = []"
| "text_before_first c (x # xs) = (if x = c then [] else x # text_before_first c xs)"

fun text_after_first :: "char \<Rightarrow> string \<Rightarrow> string" where
  "text_after_first c [] = []"
| "text_after_first c (x # xs) = (if x = c then xs else text_after_first c xs)"

section \<open>Sample records and states\<close>

definition jane :: user where
  "jane = \<lparr> name = ''Jane Doe'', email = ''j@x.com'', company = \<lparr> company_name = ''Eng'' \<rparr>,
            user_id = Fin 11 \<rparr>"

definition leanne :: user where
  "leanne = \<lparr> name = ''Leanne Graham'', email = ''Sincere@april.biz'',
       company = \<lparr> company_name = ''Romaguera-Crona'' \<rparr>, user_id = Fin 1 \<rparr>"

definition ervin :: user where
  "ervin = \<lparr> name = ''Ervin Howell'', email = ''Shanna@melissa.tv'',
       company = \<lparr> company_name = ''Deckow-Crist'' \<rparr>, user_id = Fin 2 \<rparr>"

definition nicholas :: user where
  "nicholas = \<lparr> name = ''Nicholas Runolfsdottir V'', email = ''Sherwood@rosamond.me'',
       company = \<lparr> company_name = ''Abernathy Group'' \<rparr>, user_id = Fin 8 \<rparr>"

definition three_users :: UserList_state where
  "three_users = initial_state\<lparr> users := [leanne, ervin, nicholas] \<rparr>"

definition largest_id_state :: UserList_state where
  "largest_id_state = initial_state\<lparr> users := [leanne\<lparr> user_id := Fin 9007199254740992 \<rparr>] \<rparr>"

definition fourteen_users :: "user list" where
  "fourteen_users = map (\<lambda>k. jane\<lparr> user_id := Fin (int k) \<rparr>) [1..<15]"

section \<open>The running maximum\<close>

lemma Math_max_Nil: "Math_max [] = NegInf"
  by (simp add: Math_max_def)

lemma foldl_max_mem:
  "foldl (\<lambda>highest x. if js_gt x highest then x else highest) h xs \<in> insert h (set xs)"
  by (induction xs arbitrary: h) auto

lemma js_gt_trans: "js_gt a b \<Longrightarrow> js_gt b c \<Longrightarrow> js_gt a c"
  by (cases a; cases b; cases c) auto

lemma foldl_max_ge_start:
  "\<not> js_gt h (foldl (\<lambda>highest x. if js_gt x highest then x else highest) h xs)"
proof (induction xs arbitrary: h)
  case Nil
  show ?case by (cases h) auto
next
  case (Cons x xs)
  show ?case
  proof (cases "js_gt x h")
    case True
    have "\<not> js_gt x (foldl (\<lambda>highest x. if js_gt x highest then x else highest) x xs)"
      by (rule Cons.IH)
    with True show ?thesis
      by (auto dest: js_gt_trans)
  next
    case False
    then show ?thesis using Cons.IH [of h] by simp
  qed
qed

lemma foldl_max_upper:
  "x \<in> set xs \<Longrightarrow> \<not> js_gt x (foldl (\<lambda>highest x. if js_gt x highest then x else highest) h xs)"
proof (induction xs arbitrary: h)
  case Nil
  then show ?case by simp
next
  case (Cons y ys)
  let ?f = "\<lambda>highest x. if js_gt x highest then x else highest"
  show ?case
  proof (cases "x = y")
    case True
    show ?thesis
    proof (cases "js_gt y h")
      case True
      then show ?thesis using \<open>x = y\<close> foldl_max_ge_start [of y ys] by simp
    next
      case False
      have "\<not> js_gt h (foldl ?f h ys)" by (rule foldl_max_ge_start)
      then have "\<not> js_gt y (foldl ?f h ys)"
        using False by (cases y; cases h; cases "foldl ?f h ys") auto
      then show ?thesis using False \<open>x = y\<close> by simp
    qed
  next
    case False
    with Cons.prems have "x \<in> set ys" by simp
    then show ?thesis using Cons.IH by simp
  qed
qed

lemma Math_max_upper: "x \<in> set xs \<Longrightarrow> \<not> js_gt x (Math_max xs)"
  unfolding Math_max_def by (rule foldl_max_upper)

lemma Math_max_mem: "xs \<noteq> [] \<Longrightarrow> Math_max xs \<in> set xs"
proof -
  assume ne: "xs \<noteq> []"
  have "Math_max xs \<in> insert NegInf (set xs)"
    unfolding Math_max_def by (rule foldl_max_mem)
  moreover have "Math_max xs = NegInf \<Longrightarrow> NegInf \<in> set xs"
  proof -
    assume eq: "Math_max xs = NegInf"
    from ne obtain y where y: "y \<in> set xs" by (cases xs) auto
    then have "\<not> js_gt y (Math_max xs)" by (rule Math_max_upper)
    with eq have "y = NegInf" by (cases y) auto
    with y show ?thesis by simp
  qed
  ultimately show ?thesis by auto
qed

text \<open>On integers the running maximum is the maximum of the set.\<close>

lemma Math_max_Fin:
  assumes "xs \<noteq> []"
  shows "Math_max (map Fin xs) = Fin (Max (set xs))"
proof -
  from assms have "Math_max (map Fin xs) \<in> set (map Fin xs)"
    by (intro Math_max_mem) simp
  then obtain m where m: "Math_max (map Fin xs) = Fin m" "m \<in> set xs" by auto
  have "\<forall>x\<in>set xs. x \<le> m"
  proof
    fix x assume "x \<in> set xs"
    then have "\<not> js_gt (Fin x) (Math_max (map Fin xs))"
      by (intro Math_max_upper) simp
    with m show "x \<le> m" by simp
  qed
  with m have "Max (set xs) = m"
    by (intro Max_eqI) auto
  with m show ?thesis by simp
qed

section \<open>Add\<close>

lemma spacing_small: "n < 2 ^ 53 \<Longrightarrow> spacing n = 1"
  by (subst spacing.simps) simp

lemma spacing_2_53: "spacing (2 ^ 53) = 2"
  by (subst spacing.simps) (simp add: spacing_small)

text \<open>Integers of magnitude up to \<open>2^53\<close> are doubles: rounding leaves them as they are.\<close>

lemma round_double_exact: "\<bar>x\<bar> \<le> 2 ^ 53 \<Longrightarrow> round_double x = x"
proof (cases "\<bar>x\<bar> < 2 ^ 53")
  case True
  then have "spacing (nat \<bar>x\<bar>) = 1" by (intro spacing_small) (simp add: nat_less_iff)
  then show ?thesis by (simp add: round_double_def)
next
  case False
  assume "\<bar>x\<bar> \<le> 2 ^ 53"
  with False have x: "x = 2 ^ 53 \<or> x = - (2 ^ 53)" by linarith
  then have "nat \<bar>x\<bar> = 2 ^ 53" by auto
  then have u: "spacing (nat \<bar>x\<bar>) = 2" by (simp only: spacing_2_53)
  from x have "x mod 2 = 0" by auto
  then show ?thesis unfolding round_double_def u Let_def by (simp; presburger)
qed

lemma js_plus_one_exact: "\<bar>k\<bar> < 2 ^ 53 \<Longrightarrow> js_plus_one (Fin k) = Fin (k + 1)"
  by (simp add: round_double_exact)

text \<open>
  The new id is not always the maximum plus 1: for the collection of one record with id
  \<open>2^53 = 9007199254740992\<close>, the sum \<open>2^53 + 1\<close> is no double and is rounded back to
  \<open>2^53\<close>, so the record added gets the id \<open>2^53\<close>, the maximum itself.
\<close>

theorem add_at_largest_id_counterexample:
  "users largest_id_state \<noteq> []
   \<and> selectedUser largest_id_state = None
   \<and> map user_id (users largest_id_state) = [Fin 9007199254740992]
   \<and> user_id (last (users (handleAddOrEditUser jane largest_id_state))) = Fin 9007199254740992
   \<and> user_id (last (users (handleAddOrEditUser jane largest_id_state)))
       \<noteq> Fin (9007199254740992 + 1)"
  by (simp add: largest_id_state_def initial_state_def handleAddOrEditUser_def Math_max_def
        round_double_def spacing.simps)

text \<open>
  C1, amended. For every non-empty collection, an Add (Add-or-Edit with no record
  selected) appends one record at the end, so the length grows by exactly 1, and the id
  of the new record is the JavaScript sum \<open>m + 1\<close> for the maximum \<open>m\<close> of the previous
  ids: \<open>m\<close> is one of them and none is greater. Whenever that maximum is an integer of
  magnitude below \<open>2^53\<close>, the new id is the integer \<open>m + 1\<close>.
\<close>

theorem add_to_nonempty_collection:
  assumes "users st \<noteq> []" and "selectedUser st = None"
  shows "\<exists>m. m \<in> set (map user_id (users st))
           \<and> (\<forall>x\<in>set (map user_id (users st)). \<not> js_gt x m)
           \<and> users (handleAddOrEditUser usr st) = users st @ [usr\<lparr> user_id := js_plus_one m \<rparr>]
           \<and> user_id (last (users (handleAddOrEditUser usr st))) = js_plus_one m
           \<and> length (users (handleAddOrEditUser usr st)) = length (users st) + 1
           \<and> (\<forall>k. m = Fin k \<and> \<bar>k\<bar> < 2 ^ 53 \<longrightarrow>
                 user_id (last (users (handleAddOrEditUser usr st))) = Fin (k + 1))
           \<and> (\<forall>ks. map user_id (users st) = map Fin ks \<and> \<bar>Max (set ks)\<bar> < 2 ^ 53 \<longrightarrow>
                 user_id (last (users (handleAddOrEditUser usr st))) = Fin (Max (set ks) + 1))"
proof -
  let ?ids = "map user_id (users st)"
  let ?m = "Math_max ?ids"
  from assms(1) have ne: "?ids \<noteq> []" by simp
  have mem: "?m \<in> set ?ids" using ne by (rule Math_max_mem)
  have upper: "\<forall>x\<in>set ?ids. \<not> js_gt x ?m" using Math_max_upper by blast
  have res: "users (handleAddOrEditUser usr st) = users st @ [usr\<lparr> user_id := js_plus_one ?m \<rparr>]"
    using assms(2) by (simp add: handleAddOrEditUser_def)
  then have new: "user_id (last (users (handleAddOrEditUser usr st))) = js_plus_one ?m"
    by simp
  have exact: "\<forall>k. ?m = Fin k \<and> \<bar>k\<bar> < 2 ^ 53 \<longrightarrow>
      user_id (last (users (handleAddOrEditUser usr st))) = Fin (k + 1)"
    unfolding new by (auto simp only: js_plus_one_exact)
  have ints: "\<forall>ks. ?ids = map Fin ks \<and> \<bar>Max (set ks)\<bar> < 2 ^ 53 \<longrightarrow>
      user_id (last (users (handleAddOrEditUser usr st))) = Fin (Max (set ks) + 1)"
  proof (intro allI impI)
    fix ks assume ks: "?ids = map Fin ks \<and> \<bar>Max (set ks)\<bar> < 2 ^ 53"
    with ne have "ks \<noteq> []" by auto
    then have "Math_max (map Fin ks) = Fin (Max (set ks))" by (rule Math_max_Fin)
    with ks have "?m = Fin (Max (set ks))" by simp
    with ks show "user_id (last (users (handleAddOrEditUser usr st))) = Fin (Max (set ks) + 1)"
      unfolding new by (simp only: js_plus_one_exact)
  qed
  from mem upper res new exact ints show ?thesis
    by (intro exI [of _ ?m]) simp
qed

text \<open>The collection \<^verbatim>\<open>[{id:1,...}]\<close> and the draft of Jane Doe: the new record has id 2.\<close>

theorem add_to_nonempty_collection_witness:
  "users (initial_state\<lparr> users := [jane\<lparr> user_id := Fin 1 \<rparr>] \<rparr>) \<noteq> []
   \<and> selectedUser (initial_state\<lparr> users := [jane\<lparr> user_id := Fin 1 \<rparr>] \<rparr>) = None
   \<and> map user_id (users (initial_state\<lparr> users := [jane\<lparr> user_id := Fin 1 \<rparr>] \<rparr>)) = map Fin [1]
   \<and> \<bar>Max (set [1 :: int])\<bar> < 2 ^ 53
   \<and> users (handleAddOrEditUser jane (initial_state\<lparr> users := [jane\<lparr> user_id := Fin 1 \<rparr>] \<rparr>))
       = [jane\<lparr> user_id := Fin 1 \<rparr>, jane\<lparr> user_id := Fin 2 \<rparr>]"
  using add_to_nonempty_collection [of "initial_state\<lparr> users := [jane\<lparr> user_id := Fin 1 \<rparr>] \<rparr>" jane]
  by (auto simp add: initial_state_def round_double_exact)

section \<open>Edit\<close>

text \<open>
  C2. For every collection and every selected record, an Edit (Add-or-Edit with a
  selection) leaves the length unchanged; at every position, the entry is the submitted
  record when the old entry's id equals the submitted id, and the old entry otherwise.
  When the ids are pairwise distinct, the result is the collection with the one matching
  position overwritten.
\<close>

theorem edit_replaces_matching_entry:
  assumes "selectedUser st = Some sel"
  shows "length (users (handleAddOrEditUser usr st)) = length (users st)
       \<and> (\<forall>i<length (users st).
             users (handleAddOrEditUser usr st) ! i
               = (if user_id (users st ! i) = user_id usr then usr else users st ! i))
       \<and> (\<forall>i<length (users st).
             distinct (map user_id (users st)) \<and> user_id (users st ! i) = user_id usr
               \<longrightarrow> users (handleAddOrEditUser usr st) = (users st)[i := usr])"
proof -
  let ?f = "\<lambda>u. if user_id u = user_id usr then usr else u"
  have res: "users (handleAddOrEditUser usr st) = map ?f (users st)"
    using assms by (simp add: handleAddOrEditUser_def)
  have upd: "map ?f xs = xs[i := usr]"
    if "i < length xs" "distinct (map user_id xs)" "user_id (xs ! i) = user_id usr" for xs i
  proof (rule nth_equalityI)
    show "length (map ?f xs) = length (xs[i := usr])" by simp
  next
    fix j assume "j < length (map ?f xs)"
    then have j: "j < length xs" by simp
    show "map ?f xs ! j = xs[i := usr] ! j"
    proof (cases "j = i")
      case True
      with that show ?thesis by simp
    next
      case False
      have "user_id (xs ! j) \<noteq> user_id (xs ! i)"
      proof
        assume "user_id (xs ! j) = user_id (xs ! i)"
        then have "map user_id xs ! j = map user_id xs ! i" using j that(1) by simp
        moreover have "j < length (map user_id xs)" "i < length (map user_id xs)"
          using j that(1) by simp_all
        ultimately have "j = i" using that(2) by (simp only: nth_eq_iff_index_eq)
        with False show False by simp
      qed
      with that(3) j False show ?thesis by simp
    qed
  qed
  show ?thesis using res upd by simp
qed

theorem edit_replaces_matching_entry_witness:
  "selectedUser (three_users\<lparr> selectedUser := Some ervin \<rparr>) = Some ervin
   \<and> users (handleAddOrEditUser (jane\<lparr> user_id := Fin 2 \<rparr>) (three_users\<lparr> selectedUser := Some ervin \<rparr>))
       = [leanne, jane\<lparr> user_id := Fin 2 \<rparr>, nicholas]"
  using edit_replaces_matching_entry [of "three_users\<lparr> selectedUser := Some ervin \<rparr>" ervin
      "jane\<lparr> user_id := Fin 2 \<rparr>"]
  by (simp add: three_users_def initial_state_def handleAddOrEditUser_def
        leanne_def ervin_def nicholas_def jane_def)

section \<open>Delete\<close>

text \<open>
  C3. For every collection and every id, after a successful Delete no record of the
  collection has that id, the collection is a subsequence of the old one (nothing is
  reordered or changed), and every record with another id occurs as often as before.
\<close>

theorem delete_removes_matching_entry:
  "(\<forall>u\<in>set (users (handleDeleteUser (Resolved ()) i st)). user_id u \<noteq> i)
   \<and> subseq (users (handleDeleteUser (Resolved ()) i st)) (users st)
   \<and> (\<forall>u\<in>set (users st). user_id u \<noteq> i \<longrightarrow>
         count_list (users (handleDeleteUser (Resolved ()) i st)) u = count_list (users st) u)"
proof -
  have res: "users (handleDeleteUser (Resolved ()) i st) = filter (\<lambda>u. user_id u \<noteq> i) (users st)"
    by (simp add: handleDeleteUser_def)
  have cnt: "P u \<Longrightarrow> count_list (filter P xs) u = count_list xs u" for P and u :: user and xs
    by (induction xs) auto
  show ?thesis unfolding res by (auto simp: cnt)
qed

theorem delete_removes_matching_entry_witness:
  "users (handleDeleteUser (Resolved ()) (Fin 2) three_users) = [leanne, nicholas]
   \<and> leanne \<in> set (users three_users) \<and> user_id leanne \<noteq> Fin 2
   \<and> count_list (users (handleDeleteUser (Resolved ()) (Fin 2) three_users)) leanne = 1"
  using delete_removes_matching_entry [of "Fin 2" three_users]
  by (simp add: three_users_def initial_state_def handleDeleteUser_def
        leanne_def ervin_def nicholas_def)

section \<open>Network failure\<close>

text \<open>
  C4. For every collection, when the request of Load or of Delete is rejected, the
  collection is what it was, the message of the failure is stored as the error, and an
  error notification is emitted.
\<close>

theorem network_failure_keeps_collection:
  "users (fetchUsers (Rejected message) st) = users st
   \<and> error (fetchUsers (Rejected message) st) = Some message
   \<and> toasts (fetchUsers (Rejected message) st) = toasts st @ [Toast_error ''Failed to fetch users.'']
   \<and> users (handleDeleteUser (Rejected message) i st) = users st
   \<and> error (handleDeleteUser (Rejected message) i st) = Some message
   \<and> toasts (handleDeleteUser (Rejected message) i st)
       = toasts st @ [Toast_error ''Failed to delete user.'']"
  by (simp add: fetchUsers_def handleDeleteUser_def)

theorem network_failure_keeps_collection_witness:
  "users (fetchUsers (Rejected ''Network Error'') three_users) = [leanne, ervin, nicholas]
   \<and> users (handleDeleteUser (Rejected ''Network Error'') (Fin 2) three_users)
       = [leanne, ervin, nicholas]
   \<and> error (handleDeleteUser (Rejected ''Network Error'') (Fin 2) three_users)
       = Some ''Network Error''"
  using network_failure_keeps_collection [of "''Network Error''" three_users "Fin 2"]
  by (simp add: three_users_def)

section \<open>Validation of the form\<close>

text \<open>
  C5. For every draft in which the name, the email or the company name is the empty
  string, a submit sets the form's validation error, issues no request, and leaves the
  list's state, the record collection with it, as it was.
\<close>

theorem empty_field_stops_submit:
  assumes "name (formData f) = [] \<or> email (formData f) = []
           \<or> company_name (company (formData f)) = []"
  shows "handleSubmit sel f = (f\<lparr> formError := Some ''All fields are required.'' \<rparr>, None)
       \<and> submit net (st, f) = ((st, f\<lparr> formError := Some ''All fields are required.'' \<rparr>), [])
       \<and> users (fst (fst (submit net (st, f)))) = users st
       \<and> snd (submit net (st, f)) = []"
  using assms by (auto simp add: handleSubmit_def submit_def)

theorem empty_field_stops_submit_witness:
  "email (formData (handleChange Field_name ''Jane Doe'' (initial_form None))) = []
   \<and> submit (\<lambda>req. Resolved jane) (three_users, handleChange Field_name ''Jane Doe'' (initial_form None))
       = ((three_users,
           (handleChange Field_name ''Jane Doe'' (initial_form None))
             \<lparr> formError := Some ''All fields are required.'' \<rparr>), [])"
  using empty_field_stops_submit [of "handleChange Field_name ''Jane Doe'' (initial_form None)"
      None "\<lambda>req. Resolved jane" three_users]
  by (simp add: handleChange_def initial_form_def empty_formData_def)

section \<open>Pagination\<close>

lemma lastPage_div: "lastPage st = (int (length (users st)) + 12) div 13"
proof -
  have "lastPage st = \<lceil>real_of_int (int (length (users st))) / real_of_int 13\<rceil>"
    by (simp add: lastPage_def usersPerPage_def)
  also have "\<dots> = - (- int (length (users st)) div 13)"
    by (rule ceiling_divide_eq_div)
  also have "\<dots> = (int (length (users st)) + 12) div 13"
    by presburger
  finally show ?thesis .
qed

lemma take_drop_nth:
  "e \<le> length xs \<Longrightarrow> take (e - k) (drop k xs) = map (nth xs) [k..<e]"
  by (rule nth_equalityI) auto

lemma js_slice_nonneg:
  assumes "0 \<le> a" and "a \<le> b"
  shows "js_slice xs a b = map (nth xs) [min (nat a) (length xs) ..< min (nat b) (length xs)]"
proof -
  let ?k = "min (nat a) (length xs)" and ?e = "min (nat b) (length xs)"
  from assms have "js_slice xs a b = take (?e - ?k) (drop ?k xs)"
    by (simp add: js_slice_def Let_def min_def nat_diff_distrib' nat_le_iff)
  also have "\<dots> = map (nth xs) [?k ..< ?e]"
    by (rule take_drop_nth) simp
  finally show ?thesis .
qed

lemma page_start_less: "int q + 1 \<le> (int n + 12) div 13 \<Longrightarrow> q * 13 < n"
  by linarith

lemma last_page_end: "int q + 1 = (int n + 12) div 13 \<Longrightarrow> n \<le> q * 13 + 13"
  by linarith

lemma last_page_length:
  fixes n q :: nat
  assumes "q * 13 < n" and "n \<le> q * 13 + 13"
  shows "n - q * 13 = (if n mod 13 = 0 then 13 else n mod 13)"
proof (cases "n = q * 13 + 13")
  case True
  then show ?thesis by simp
next
  case False
  define r where "r = n - q * 13"
  with assms False have "n = q * 13 + r" "0 < r" "r < 13" by simp_all
  then show ?thesis by simp
qed

lemma length_fourteen_users: "length fourteen_users = 14"
  by (simp add: fourteen_users_def)

text \<open>
  C6. For every non-empty collection and every page \<open>p\<close> with
  \<open>1 \<le> p \<le> ceil(total / 13)\<close>, the visible slice is the records at the zero-based
  offsets from \<open>(p - 1) * 13\<close> up to, not including, \<open>p * 13\<close> (as far as the collection
  goes): it is not empty, it has at most 13 records, and on the last page it has
  \<open>total mod 13\<close> records, or 13 when 13 divides the total.
\<close>

theorem visible_slice_of_page:
  assumes "users st \<noteq> []" and "1 \<le> currentPage st"
    and "currentPage st \<le> \<lceil>real (length (users st)) / 13\<rceil>"
  shows "currentUsers st
           = map (nth (users st))
               [nat ((currentPage st - 1) * 13) ..< min (nat (currentPage st * 13)) (length (users st))]
       \<and> nat ((currentPage st - 1) * 13) < length (users st)
       \<and> 0 < length (currentUsers st)
       \<and> length (currentUsers st) \<le> 13
       \<and> (currentPage st = \<lceil>real (length (users st)) / 13\<rceil> \<longrightarrow>
            length (currentUsers st)
              = (if length (users st) mod 13 = 0 then 13 else length (users st) mod 13))"
proof -
  let ?p = "currentPage st" and ?n = "length (users st)"
  define q where "q = nat (?p - 1)"
  with assms(2) have p: "?p = int q + 1" by simp
  have lo: "nat ((?p - 1) * 13) = q * 13" and hi: "nat (?p * 13) = q * 13 + 13"
    unfolding p by (simp_all add: nat_mult_distrib nat_add_distrib)
  have last: "\<lceil>real ?n / 13\<rceil> = (int ?n + 12) div 13"
    using lastPage_div [of st] by (simp add: lastPage_def usersPerPage_def)
  from assms(3) have "int q + 1 \<le> (int ?n + 12) div 13"
    unfolding last p .
  then have first: "q * 13 < ?n" by (rule page_start_less)
  have "currentUsers st = js_slice (users st) (?p * 13 - 13) (?p * 13)"
    by (simp add: currentUsers_def indexOfFirstUser_def indexOfLastUser_def usersPerPage_def)
  also have "\<dots> = map (nth (users st))
      [min (nat (?p * 13 - 13)) ?n ..< min (nat (?p * 13)) ?n]"
    using assms(2) by (intro js_slice_nonneg) simp_all
  also have "nat (?p * 13 - 13) = q * 13"
    unfolding p by (simp add: nat_mult_distrib)
  also have "min (q * 13) ?n = q * 13"
    using first by simp
  finally have slice: "currentUsers st = map (nth (users st)) [q * 13 ..< min (nat (?p * 13)) ?n]" .
  then have len: "length (currentUsers st) = min (q * 13 + 13) ?n - q * 13"
    by (simp add: hi)
  have pos: "0 < length (currentUsers st)"
    using len first by linarith
  have bound: "length (currentUsers st) \<le> 13"
    using len by linarith
  have lastlen: "length (currentUsers st) = (if ?n mod 13 = 0 then 13 else ?n mod 13)"
    if "?p = \<lceil>real ?n / 13\<rceil>"
  proof -
    from that have "int q + 1 = (int ?n + 12) div 13"
      unfolding last p .
    then have "?n \<le> q * 13 + 13" by (rule last_page_end)
    with first len have l: "length (currentUsers st) = ?n - q * 13" by simp
    from first \<open>?n \<le> q * 13 + 13\<close> have "?n - q * 13 = (if ?n mod 13 = 0 then 13 else ?n mod 13)"
      by (rule last_page_length)
    with l show ?thesis by simp
  qed
  from slice first pos bound lastlen show ?thesis
    unfolding lo by blast
qed

text \<open>Fourteen records, page 2: the slice is the fourteenth record alone.\<close>

theorem visible_slice_of_page_witness:
  "users (initial_state\<lparr> users := fourteen_users, currentPage := 2 \<rparr>) \<noteq> []
   \<and> 1 \<le> currentPage (initial_state\<lparr> users := fourteen_users, currentPage := 2 \<rparr>)
   \<and> currentPage (initial_state\<lparr> users := fourteen_users, currentPage := 2 \<rparr>)
       \<le> \<lceil>real (length (users (initial_state\<lparr> users := fourteen_users, currentPage := 2 \<rparr>))) / 13\<rceil>
   \<and> currentUsers (initial_state\<lparr> users := fourteen_users, currentPage := 2 \<rparr>)
       = [jane\<lparr> user_id := Fin 14 \<rparr>]"
  using visible_slice_of_page [of "initial_state\<lparr> users := fourteen_users, currentPage := 2 \<rparr>"]
  by (simp add: length_fourteen_users) (simp add: fourteen_users_def)



text \<open>
  With no records the range \<open>[1, 0]\<close> holds no page: the list starts on page 1, where
  Next is enabled and leads to page 2.
\<close>

lemma next_enabled_on_empty_collection:
  "users st = [] \<Longrightarrow> currentPage st = 1 \<Longrightarrow> \<not> next_disabled st \<and> currentPage (click_next st) = 2"
  by (simp add: next_disabled_def lastPage_def click_next_def paginate_def)

section \<open>First and last name of a row\<close>

lemma split_unfold:
  "split c s = text_before_first c s # (if c \<in> set s then split c (text_after_first c s) else [])"
  by (induction s) (auto split: list.splits)

lemma split_first_part: "part_or_empty (split c s) 0 = text_before_first c s"
  by (subst split_unfold) (simp add: part_or_empty_def)

lemma text_after_first_absent: "c \<notin> set s \<Longrightarrow> text_after_first c s = []"
  by (induction s) auto

lemma split_second_part:
  "part_or_empty (split c s) 1 = text_before_first c (text_after_first c s)"
proof (cases "c \<in> set s")
  case True
  have "part_or_empty (split c s) 1 = part_or_empty (split c (text_after_first c s)) 0"
    by (subst split_unfold) (simp add: part_or_empty_def True)
  then show ?thesis by (simp only: split_first_part)
next
  case False
  then have "part_or_empty (split c s) 1 = []"
    by (subst split_unfold) (simp add: part_or_empty_def)
  with False show ?thesis by (simp add: text_after_first_absent)
qed

text \<open>
  The last name of a row is not the text after the first space of the name: for the name
  "Nicholas Runolfsdottir V" the row shows "Runolfsdottir", and the text after the first
  space is "Runolfsdottir V".
\<close>

theorem last_name_counterexample:
  "lastName nicholas = ''Runolfsdottir''
   \<and> text_after_first (CHR '' '') (name nicholas) = ''Runolfsdottir V''
   \<and> lastName nicholas \<noteq> text_after_first (CHR '' '') (name nicholas)"
  by (simp add: lastName_def nameParts_def part_or_empty_def nicholas_def)

text \<open>
  C8, amended. For every record, the displayed first and last name are computed from the
  record's name by splitting it at every space: the first name is the text before the
  first space, and the last name is the text between the first and the second space (the
  text after the first space, up to the next space if there is one; empty when the name
  has no space).
\<close>

theorem names_are_first_two_parts:
  "firstName u = text_before_first (CHR '' '') (name u)
   \<and> lastName u = text_before_first (CHR '' '') (text_after_first (CHR '' '') (name u))
   \<and> User (Some u)
       = Some \<lparr> cell_id = user_id u,
                cell_firstName = text_before_first (CHR '' '') (name u),
                cell_lastName = text_before_first (CHR '' '') (text_after_first (CHR '' '') (name u)),
                cell_email = email u, cell_department = company_name (company u) \<rparr>"
proof -
  have names: "firstName u = text_before_first (CHR '' '') (name u)"
    "lastName u = text_before_first (CHR '' '') (text_after_first (CHR '' '') (name u))"
    by (simp_all only: firstName_def lastName_def nameParts_def split_first_part split_second_part)
  then show ?thesis by (simp add: User_def department_def)
qed

theorem names_are_first_two_parts_witness:
  "firstName leanne = ''Leanne'' \<and> lastName leanne = ''Graham''
   \<and> firstName nicholas = ''Nicholas'' \<and> lastName nicholas = ''Runolfsdottir''"
  using names_are_first_two_parts [of leanne] names_are_first_two_parts [of nicholas]
  by (simp add: leanne_def nicholas_def)

section \<open>Uniqueness of ids\<close>

text \<open>
  Where the ids stay pairwise distinct: an Edit keeps the list of ids, a Delete keeps
  distinct ids distinct, an Add to a non-empty collection of distinct integer ids of
  magnitude below \<open>2^53\<close> appends an integer greater than all of them, and a Load takes
  the sequence of the server as it is.
\<close>

lemma edit_keeps_ids:
  "selectedUser st = Some sel \<Longrightarrow>
     map user_id (users (handleAddOrEditUser usr st)) = map user_id (users st)"
  by (simp add: handleAddOrEditUser_def)

lemma delete_keeps_distinct_ids:
  "distinct (map user_id (users st)) \<Longrightarrow> distinct (map user_id (users (handleDeleteUser r i st)))"
  by (cases r) (simp_all add: handleDeleteUser_def distinct_map_filter)

lemma add_keeps_distinct_integer_ids:
  assumes "selectedUser st = None" and "users st \<noteq> []"
    and "map user_id (users st) = map Fin ks" and "distinct ks"
    and "\<bar>Max (set ks)\<bar> < 2 ^ 53"
  shows "map user_id (users (handleAddOrEditUser usr st)) = map Fin (ks @ [Max (set ks) + 1])
       \<and> distinct (ks @ [Max (set ks) + 1])"
proof -
  from assms(2,3) have ne: "ks \<noteq> []" by auto
  then have "Math_max (map Fin ks) = Fin (Max (set ks))" by (rule Math_max_Fin)
  with assms(1,3,5) have ids: "map user_id (users (handleAddOrEditUser usr st))
      = map Fin (ks @ [Max (set ks) + 1])"
    by (simp add: handleAddOrEditUser_def round_double_exact)
  have "Max (set ks) + 1 \<notin> set ks"
  proof
    assume "Max (set ks) + 1 \<in> set ks"
    then have "Max (set ks) + 1 \<le> Max (set ks)" by (intro Max_ge) simp_all
    then show False by simp
  qed
  with assms(4) ids show ?thesis by simp
qed

lemma load_takes_server_sequence:
  "users (fetchUsers (Resolved data) st) = data"
  by (simp add: fetchUsers_def)

text \<open>
  C9. The ids of the collection are to be pairwise distinct after every operation. The
  code does not keep this: from the initial, empty collection a first Add gives the new
  record the id negative infinity, and a second Add, to a collection whose ids are
  pairwise distinct, gives its record the same id, since the maximum of the ids plus 1
  is negative infinity again. The collection then holds two records with one id.
\<close>

theorem second_add_to_empty_collection_repeats_id:
  "users (handleAddOrEditUser ervin (handleAddOrEditUser leanne initial_state))
     = [leanne\<lparr> user_id := NegInf \<rparr>, ervin\<lparr> user_id := NegInf \<rparr>]
   \<and> distinct (map user_id (users initial_state))
   \<and> distinct (map user_id (users (handleAddOrEditUser leanne initial_state)))
   \<and> \<not> distinct (map user_id
         (users (handleAddOrEditUser ervin (handleAddOrEditUser leanne initial_state))))"
  by (simp add: handleAddOrEditUser_def initial_state_def Math_max_def)

section \<open>Adding to an empty collection\<close>

text \<open>
  C10. With an empty collection and no record selected, Add-or-Edit appends exactly one
  record, so the collection has length 1, and the id of that record is
  \<^verbatim>\<open>Math.max() + 1\<close>, which is negative infinity and no integer: the code has no guard
  for the empty collection.
\<close>

theorem add_to_empty_collection:
  assumes "users st = []" and "selectedUser st = None"
  shows "users (handleAddOrEditUser usr st) = [usr\<lparr> user_id := NegInf \<rparr>]
       \<and> length (users (handleAddOrEditUser usr st)) = 1
       \<and> user_id (last (users (handleAddOrEditUser usr st))) = js_plus_one (Math_max [])
       \<and> (\<forall>k. user_id (last (users (handleAddOrEditUser usr st))) \<noteq> Fin k)"
  using assms by (simp add: handleAddOrEditUser_def Math_max_Nil)

theorem add_to_empty_collection_witness:
  "users initial_state = [] \<and> selectedUser initial_state = None
   \<and> users (handleAddOrEditUser jane initial_state) = [jane\<lparr> user_id := NegInf \<rparr>]"
  using add_to_empty_collection [of initial_state jane]
  by (simp add: initial_state_def)

end
